theory Spec2Isabelle
  imports Main "HOL-Library.Word"
begin

unbundle bit_operations_syntax

section \<open>The machine state\<close>

text \<open>
  The Go struct \<open>Chip8\<close>. Bytes are 8-bit words, \<open>uint16\<close> values are 16-bit words, so
  every \<open>+\<close>, \<open>-\<close> and shift below wraps as the Go operators do. The fixed-size arrays
  are functions from the index; an index the Go array does not have makes the Go
  runtime panic, and the model returns that panic wherever the code can reach it.
\<close>

type_synonym u8 = "8 word"
type_synonym u16 = "16 word"

record Chip8 =
  memory :: "nat \<Rightarrow> u8"
  display :: "nat \<Rightarrow> nat \<Rightarrow> bool"
  PC :: u16
  I :: u16
  stack :: "nat \<Rightarrow> u16"
  SP :: u8
  V :: "nat \<Rightarrow> u8"
  DT :: u8
  ST :: u8
  keys :: "nat \<Rightarrow> bool"

text \<open>The value of the Go expression \<open>Chip8{}\<close>: every field zero.\<close>

definition Chip8_zero :: Chip8 where
  "Chip8_zero =
     \<lparr>memory = (\<lambda>_. 0), display = (\<lambda>_ _. False), PC = 0, I = 0, stack = (\<lambda>_. 0),
      SP = 0, V = (\<lambda>_. 0), DT = 0, ST = 0, keys = (\<lambda>_. False)\<rparr>"

datatype panic = StackUnderflow | StackOverflow | PCOutOfBounds | IndexOutOfRange

datatype load_error = ReadFailure string | RomTooLarge nat

definition fontset :: "u8 list" where
  "fontset =
    [0xF0, 0x90, 0x90, 0x90, 0xF0,
     0x20, 0x60, 0x20, 0x20, 0x70,
     0xF0, 0x10, 0xF0, 0x80, 0xF0,
     0xF0, 0x10, 0xF0, 0x10, 0xF0,
     0x90, 0x90, 0xF0, 0x10, 0x10,
     0xF0, 0x80, 0xF0, 0x10, 0xF0,
     0xF0, 0x80, 0xF0, 0x90, 0xF0,
     0xF0, 0x10, 0x20, 0x40, 0x40,
     0xF0, 0x90, 0xF0, 0x90, 0xF0,
     0xF0, 0x90, 0xF0, 0x10, 0xF0,
     0xF0, 0x90, 0xF0, 0x90, 0x90,
     0xE0, 0x90, 0xE0, 0x90, 0xE0,
     0xF0, 0x80, 0x80, 0x80, 0xF0,
     0xE0, 0x90, 0x90, 0x90, 0xE0,
     0xF0, 0x80, 0xF0, 0x80, 0xF0,
     0xF0, 0x80, 0xF0, 0x80, 0x80]"

section \<open>Init and LoadROM\<close>

text \<open>
  Go's builtin \<open>copy(dst, src)\<close> for \<open>dst = m[lo:hi]\<close>: it copies
  \<open>min (len dst) (len src)\<close> elements and leaves every other cell alone.
\<close>

definition copy_slice :: "(nat \<Rightarrow> u8) \<Rightarrow> nat \<Rightarrow> nat \<Rightarrow> u8 list \<Rightarrow> (nat \<Rightarrow> u8)" where
  "copy_slice m lo hi src =
     (\<lambda>a. if lo \<le> a \<and> a < lo + min (hi - lo) (length src) then src ! (a - lo) else m a)"

definition Init :: "Chip8 \<Rightarrow> Chip8" where
  "Init c = (let c1 = c\<lparr>PC := 0x200\<rparr> in c1\<lparr>memory := copy_slice (memory c1) 0 80 fontset\<rparr>)"

text \<open>
  \<open>LoadROM\<close> reads the file through \<open>os.ReadFile\<close>; what that call returned (an
  error, or the bytes of the file) is the argument \<open>read\<close> here. The result is the
  returned error (\<open>None\<close> for Go's \<open>nil\<close>) and the machine after the call.
\<close>

definition LoadROM :: "load_error + u8 list \<Rightarrow> Chip8 \<Rightarrow> load_error option \<times> Chip8" where
  "LoadROM read c =
     (case read of
        Inl err \<Rightarrow> (Some err, c)
      | Inr data \<Rightarrow>
          if length data > 4096 - 0x200 then (Some (RomTooLarge (length data)), c)
          else (None, c\<lparr>memory := copy_slice (memory c) 0x200 (0x200 + length data) data\<rparr>))"

section \<open>Timers\<close>

text \<open>
  The body of the ticker loop of \<open>StartTimers\<close>, run once for each tick, and the first
  \<open>k\<close> rounds of the loop.
\<close>

definition tick :: "Chip8 \<Rightarrow> Chip8" where
  "tick c =
     (let c1 = (if DT c > 0 then c\<lparr>DT := DT c - 1\<rparr> else c)
      in if ST c1 > 0 then c1\<lparr>ST := ST c1 - 1\<rparr> else c1)"

fun ticks :: "nat \<Rightarrow> Chip8 \<Rightarrow> Chip8" where
  "ticks 0 c = c"
| "ticks (Suc k) c = ticks k (tick c)"

section \<open>Fetch\<close>

definition Fetch :: "Chip8 \<Rightarrow> panic + (u16 \<times> Chip8)" where
  "Fetch c =
     (if int (unat (PC c)) + 1 \<ge> 4096 then Inl PCOutOfBounds
      else
        let opcode = push_bit 8 (ucast (memory c (unat (PC c))) :: u16)
                       OR ucast (memory c (unat (PC c + 1)))
        in Inr (opcode, c\<lparr>PC := PC c + 2\<rparr>))"

section \<open>Execute\<close>

subsection \<open>Group 0x0000\<close>

definition exec_0 :: "u16 \<Rightarrow> Chip8 \<Rightarrow> panic + Chip8" where
  "exec_0 opcode c =
     (if opcode = 0x00E0 then
        Inr (c\<lparr>display := (\<lambda>x y. if x < 64 \<and> y < 32 then False else display c x y)\<rparr>)
      else if opcode = 0x00EE then
        (if SP c = 0 then Inl StackUnderflow
         else
           let c1 = c\<lparr>SP := SP c - 1\<rparr>
           in if unat (SP c1) \<ge> 16 then Inl IndexOutOfRange
              else Inr (c1\<lparr>PC := stack c1 (unat (SP c1))\<rparr>))
      else Inr c)"

subsection \<open>Group 0x8000: register ALU\<close>

definition exec_8 :: "u16 \<Rightarrow> Chip8 \<Rightarrow> panic + Chip8" where
  "exec_8 opcode c =
     (let x = unat (drop_bit 8 (opcode AND 0x0F00));
          y = unat (drop_bit 4 (opcode AND 0x00F0));
          n = opcode AND 0x000F
      in
      if n = 0x0 then Inr (c\<lparr>V := (V c)(x := V c y)\<rparr>)
      else if n = 0x1 then Inr (c\<lparr>V := (V c)(x := V c x OR V c y)\<rparr>)
      else if n = 0x2 then Inr (c\<lparr>V := (V c)(x := V c x AND V c y)\<rparr>)
      else if n = 0x3 then Inr (c\<lparr>V := (V c)(x := V c x XOR V c y)\<rparr>)
      else if n = 0x4 then
        (let sum = (ucast (V c x) :: u16) + ucast (V c y);
             c1 = c\<lparr>V := (V c)(x := ucast (sum AND 0xFF))\<rparr>
         in Inr (c1\<lparr>V := (V c1)(0xF := ucast (drop_bit 8 sum AND 0x01))\<rparr>))
      else if n = 0x5 then
        (let diff = (ucast (V c x) :: u16) - ucast (V c y);
             c1 = c\<lparr>V := (V c)(x := ucast (diff AND 0xFF))\<rparr>;
             c2 = c1\<lparr>V := (V c1)(0xF := 0)\<rparr>
         in if V c2 x > V c2 y then Inr (c2\<lparr>V := (V c2)(0xF := 1)\<rparr>) else Inr c2)
      else if n = 0x6 then
        (let c1 = c\<lparr>V := (V c)(0xF := V c x AND 0x01)\<rparr>
         in Inr (c1\<lparr>V := (V c1)(x := drop_bit 1 (V c1 x))\<rparr>))
      else if n = 0x7 then
        (let diff = (ucast (V c y) :: u16) - ucast (V c x);
             c1 = c\<lparr>V := (V c)(x := ucast (diff AND 0xFF))\<rparr>;
             c2 = c1\<lparr>V := (V c1)(0xF := 0)\<rparr>
         in if V c2 y > V c2 x then Inr (c2\<lparr>V := (V c2)(0xF := 1)\<rparr>) else Inr c2)
      else if n = 0xE then
        (let c1 = c\<lparr>V := (V c)(0xF := drop_bit 7 (V c x AND 0x80))\<rparr>
         in Inr (c1\<lparr>V := (V c1)(x := push_bit 1 (V c1 x))\<rparr>))
      else Inr c)"

subsection \<open>DXYN: draw\<close>

text \<open>
  One round of the inner loop: column \<open>col\<close> of the sprite byte of row \<open>row\<close>, with
  \<open>x\<close> and \<open>y\<close> the register values read before the loops.
\<close>

definition draw_pixel :: "u8 \<Rightarrow> u8 \<Rightarrow> u8 \<Rightarrow> nat \<Rightarrow> nat \<Rightarrow> Chip8 \<Rightarrow> Chip8" where
  "draw_pixel spriteByte x y row col c =
     (if spriteByte AND drop_bit col 0x80 \<noteq> 0 then
        let xPos = unat ((x + of_nat col) mod 64);
            yPos = unat ((y + of_nat row) mod 32);
            current = display c xPos yPos;
            c1 = c\<lparr>display := (display c)(xPos := (display c xPos)(yPos := (current \<noteq> True)))\<rparr>
        in if current \<and> \<not> display c1 xPos yPos then c1\<lparr>V := (V c1)(0xF := 1)\<rparr> else c1
      else c)"

text \<open>The outer loop over the rows still to draw; reading the sprite byte can panic.\<close>

fun draw_rows :: "u8 \<Rightarrow> u8 \<Rightarrow> nat list \<Rightarrow> Chip8 \<Rightarrow> panic + Chip8" where
  "draw_rows x y [] c = Inr c"
| "draw_rows x y (row # rows) c =
     (let a = unat (I c + of_nat row)
      in if a \<ge> 4096 then Inl IndexOutOfRange
         else draw_rows x y rows (fold (draw_pixel (memory c a) x y row) [0..<8] c))"

definition exec_D :: "u16 \<Rightarrow> Chip8 \<Rightarrow> panic + Chip8" where
  "exec_D opcode c =
     (let x = V c (unat (drop_bit 8 (opcode AND 0x0F00)));
          y = V c (unat (drop_bit 4 (opcode AND 0x00F0)));
          height = opcode AND 0x000F;
          c1 = c\<lparr>V := (V c)(0xF := 0)\<rparr>
      in draw_rows x y [0..<unat height] c1)"

subsection \<open>Group 0xF000\<close>

fun store_regs :: "nat list \<Rightarrow> Chip8 \<Rightarrow> panic + Chip8" where
  "store_regs [] c = Inr c"
| "store_regs (i # is) c =
     (let a = unat (I c + of_nat i)
      in if a \<ge> 4096 then Inl IndexOutOfRange
         else store_regs is (c\<lparr>memory := (memory c)(a := V c i)\<rparr>))"

fun load_regs :: "nat list \<Rightarrow> Chip8 \<Rightarrow> panic + Chip8" where
  "load_regs [] c = Inr c"
| "load_regs (i # is) c =
     (let a = unat (I c + of_nat i)
      in if a \<ge> 4096 then Inl IndexOutOfRange
         else load_regs is (c\<lparr>V := (V c)(i := memory c a)\<rparr>))"

definition exec_F :: "u16 \<Rightarrow> Chip8 \<Rightarrow> panic + Chip8" where
  "exec_F opcode c =
     (let x = unat (drop_bit 8 (opcode AND 0x0F00));
          n = opcode AND 0x00FF
      in
      if n = 0x07 then Inr (c\<lparr>V := (V c)(x := DT c)\<rparr>)
      else if n = 0x15 then Inr (c\<lparr>DT := V c x\<rparr>)
      else if n = 0x18 then Inr (c\<lparr>ST := V c x\<rparr>)
      else if n = 0x1E then
        (let i = (ucast (V c x) :: u16);
             c1 = (if I c + ucast (V c x) > 0xFFF then c\<lparr>V := (V c)(0xF := 1)\<rparr>
                   else c\<lparr>V := (V c)(0xF := 0)\<rparr>)
         in Inr (c1\<lparr>I := I c1 + i\<rparr>))
      else if n = 0x0A then
        (case find (keys c) [0..<16] of
           Some i \<Rightarrow> Inr (c\<lparr>V := (V c)(x := of_nat i)\<rparr>)
         | None \<Rightarrow> Inr (c\<lparr>PC := PC c - 2\<rparr>))
      else if n = 0x29 then Inr (c\<lparr>I := ucast (V c x AND 0x0F) * 5\<rparr>)
      else if n = 0x33 then
        (let val = V c x in
         if unat (I c) \<ge> 4096 then Inl IndexOutOfRange
         else
           let c1 = c\<lparr>memory := (memory c)(unat (I c) := val div 100)\<rparr>
           in if unat (I c1 + 1) \<ge> 4096 then Inl IndexOutOfRange
              else
                let c2 = c1\<lparr>memory := (memory c1)(unat (I c1 + 1) := (val div 10) mod 10)\<rparr>
                in if unat (I c2 + 2) \<ge> 4096 then Inl IndexOutOfRange
                   else Inr (c2\<lparr>memory := (memory c2)(unat (I c2 + 2) := val mod 10)\<rparr>))
      else if n = 0x55 then store_regs [0..<Suc x] c
      else if n = 0x65 then load_regs [0..<Suc x] c
      else Inr c)"

subsection \<open>The dispatcher\<close>

text \<open>
  \<open>now\<close> is what \<open>time.Now().Nanosecond()\<close> returns when \<open>CXNN\<close> asks for it. The two
  \<open>Printf\<close> calls for unknown opcodes write to standard output only and are left out.
\<close>

definition Execute :: "nat \<Rightarrow> u16 \<Rightarrow> Chip8 \<Rightarrow> panic + Chip8" where
  "Execute now opcode c =
     (let sel = opcode AND 0xF000 in
      if sel = 0x0000 then exec_0 opcode c
      else if sel = 0x1000 then Inr (c\<lparr>PC := opcode AND 0x0FFF\<rparr>)
      else if sel = 0x2000 then
        (if int (unat (SP c)) + 1 \<ge> 16 then Inl StackOverflow
         else
           let c1 = c\<lparr>stack := (stack c)(unat (SP c) := PC c)\<rparr>;
               c2 = c1\<lparr>SP := SP c1 + 1\<rparr>
           in Inr (c2\<lparr>PC := opcode AND 0x0FFF\<rparr>))
      else if sel = 0x3000 then
        (let x = unat (drop_bit 8 (opcode AND 0x0F00));
             nn = (ucast (opcode AND 0x00FF) :: u8)
         in if V c x = nn then Inr (c\<lparr>PC := PC c + 2\<rparr>) else Inr c)
      else if sel = 0x4000 then
        (let x = unat (drop_bit 8 (opcode AND 0x0F00));
             nn = (ucast (opcode AND 0x00FF) :: u8)
         in if V c x \<noteq> nn then Inr (c\<lparr>PC := PC c + 2\<rparr>) else Inr c)
      else if sel = 0x5000 then
        (let x = unat (drop_bit 8 (opcode AND 0x0F00));
             y = unat (drop_bit 4 (opcode AND 0x00FF))
         in if V c x = V c y then Inr (c\<lparr>PC := PC c + 2\<rparr>) else Inr c)
      else if sel = 0x6000 then
        (let x = unat (drop_bit 8 (opcode AND 0x0F00))
         in Inr (c\<lparr>V := (V c)(x := ucast (opcode AND 0x00FF))\<rparr>))
      else if sel = 0x7000 then
        (let x = unat (drop_bit 8 (opcode AND 0x0F00))
         in Inr (c\<lparr>V := (V c)(x := V c x + ucast (opcode AND 0x00FF))\<rparr>))
      else if sel = 0x8000 then exec_8 opcode c
      else if sel = 0x9000 then
        (let x = unat (drop_bit 8 (opcode AND 0x0F00));
             y = unat (drop_bit 4 (opcode AND 0x00F0))
         in if V c x \<noteq> V c y then Inr (c\<lparr>PC := PC c + 2\<rparr>) else Inr c)
      else if sel = 0xA000 then Inr (c\<lparr>I := opcode AND 0x0FFF\<rparr>)
      else if sel = 0xB000 then Inr (c\<lparr>PC := (opcode AND 0x0FFF) + ucast (V c 0)\<rparr>)
      else if sel = 0xC000 then
        (let x = unat (drop_bit 8 (opcode AND 0x0F00));
             nn = (ucast (opcode AND 0x00FF) :: u8);
             randByte = (of_nat (now mod 256) :: u8)
         in Inr (c\<lparr>V := (V c)(x := randByte AND nn)\<rparr>))
      else if sel = 0xD000 then exec_D opcode c
      else if sel = 0xF000 then exec_F opcode c
      else Inr c)"

definition Cycle :: "nat \<Rightarrow> Chip8 \<Rightarrow> panic + Chip8" where
  "Cycle now c =
     (case Fetch c of
        Inl p \<Rightarrow> Inl p
      | Inr (opcode, c1) \<Rightarrow> Execute now opcode c1)"

section \<open>Vocabulary of the statements\<close>

text \<open>
  The register operands of an opcode as the instruction forms \<open>_XY_\<close> name them: the
  second nibble is X, the third nibble is Y.
\<close>

definition opX :: "u16 \<Rightarrow> nat" where
  "opX opcode = unat (drop_bit 8 (opcode AND 0x0F00))"

definition opY :: "u16 \<Rightarrow> nat" where
  "opY opcode = unat (drop_bit 4 (opcode AND 0x00F0))"

text \<open>
  The instruction forms that the comments of \<open>Execute\<close> name: 00E0, 00EE, 1NNN, 2NNN,
  3XNN, 4XNN, 5XY0, 6XNN, 7XNN, 8XY0 to 8XY7, 8XYE, 9XY0, ANNN, BNNN, CXNN, DXYN, and
  FX07, FX15, FX18, FX1E, FX0A, FX29, FX33, FX55, FX65.
\<close>

definition documented :: "u16 \<Rightarrow> bool" where
  "documented opcode \<longleftrightarrow>
     opcode = 0x00E0 \<or> opcode = 0x00EE
     \<or> opcode AND 0xF000 = 0x1000
     \<or> opcode AND 0xF000 = 0x2000
     \<or> opcode AND 0xF000 = 0x3000
     \<or> opcode AND 0xF000 = 0x4000
     \<or> (opcode AND 0xF000 = 0x5000 \<and> opcode AND 0x000F = 0x0)
     \<or> opcode AND 0xF000 = 0x6000
     \<or> opcode AND 0xF000 = 0x7000
     \<or> (opcode AND 0xF000 = 0x8000
          \<and> opcode AND 0x000F \<in> {0x0, 0x1, 0x2, 0x3, 0x4, 0x5, 0x6, 0x7, 0xE})
     \<or> (opcode AND 0xF000 = 0x9000 \<and> opcode AND 0x000F = 0x0)
     \<or> opcode AND 0xF000 = 0xA000
     \<or> opcode AND 0xF000 = 0xB000
     \<or> opcode AND 0xF000 = 0xC000
     \<or> opcode AND 0xF000 = 0xD000
     \<or> (opcode AND 0xF000 = 0xF000
          \<and> opcode AND 0x00FF \<in> {0x07, 0x15, 0x18, 0x1E, 0x0A, 0x29, 0x33, 0x55, 0x65})"




section \<open>Words and nibbles\<close>

lemma unat_u8_lt: "unat (w::u8) < 256"
  using unsigned_less [of w, where 'a=nat] by simp

lemma unat_ucast_u8_u16: "unat (ucast (w::u8) :: u16) = unat w"
proof -
  have "unat w < 2 ^ 16" using unat_u8_lt [of w] by simp
  then show ?thesis by (simp add: unsigned_ucast_eq take_bit_nat_eq_self)
qed

lemma unat_ucast_u16_u8: "unat (ucast (w::u16) :: u8) = unat w mod 256"
  by (simp add: unsigned_ucast_eq take_bit_eq_mod)

lemma m_FF: "(0xFF::u16) = mask 8"
  by (simp add: mask_eq_exp_minus_1)

lemma m_F0: "(0xF0::u16) = push_bit 4 (mask 4)"
  by (simp add: mask_eq_exp_minus_1 push_bit_eq_mult)

lemma m_F00: "(0x0F00::u16) = push_bit 8 (mask 4)"
  by (simp add: mask_eq_exp_minus_1 push_bit_eq_mult)

lemma unat_and_FF: "unat ((w::u16) AND 0xFF) = unat w mod 256"
proof -
  have "w AND 0xFF = take_bit 8 w" by (simp only: m_FF take_bit_eq_mask)
  then show ?thesis by (simp add: unsigned_take_bit_eq take_bit_eq_mod unat_mod)
qed

lemma unat_and_1: "unat ((w::u16) AND 1) = unat w mod 2"
proof -
  have "w AND 1 = take_bit 1 w" by (simp add: take_bit_eq_mask)
  then show ?thesis by (simp add: unat_mod)
qed

lemma unat_drop_bit_8: "unat (drop_bit 8 (w::u16)) = unat w div 256"
  by (simp add: unat_div drop_bit_eq_div)

text \<open>The shift of the 5XY0 case reads the same nibble as the shift of the other cases.\<close>

lemma second_nibble_eq:
  "drop_bit 4 (opcode AND 0x00FF) = drop_bit 4 (opcode AND (0x00F0::u16))"
  unfolding m_FF m_F0
  by (rule bit_word_eqI) (auto simp add: bit_simps)

text \<open>A register operand is an index of the sixteen registers: \<open>V\<close> is never read out of range.\<close>

lemma reg_x_lt: "unat (drop_bit 8 (opcode AND (0x0F00::u16))) < 16"
proof -
  have "drop_bit 8 (opcode AND 0x0F00) = take_bit 4 (drop_bit 8 opcode)"
    unfolding m_F00 by (rule bit_word_eqI) (auto simp add: bit_simps)
  then have "unat (drop_bit 8 (opcode AND 0x0F00)) = take_bit 4 (unat (drop_bit 8 opcode))"
    by (simp only: unsigned_take_bit_eq)
  then show ?thesis
    using take_bit_nat_less_exp [of 4 "unat (drop_bit 8 opcode)"] by simp
qed

lemma reg_y_lt: "unat (drop_bit 4 (opcode AND (0x00F0::u16))) < 16"
proof -
  have "drop_bit 4 (opcode AND 0x00F0) = take_bit 4 (drop_bit 4 opcode)"
    unfolding m_F0 by (rule bit_word_eqI) (auto simp add: bit_simps)
  then have "unat (drop_bit 4 (opcode AND 0x00F0)) = take_bit 4 (unat (drop_bit 4 opcode))"
    by (simp only: unsigned_take_bit_eq)
  then show ?thesis
    using take_bit_nat_less_exp [of 4 "unat (drop_bit 4 opcode)"] by simp
qed

section \<open>Init and LoadROM\<close>

lemma copy_slice_inside:
  "i < length src \<Longrightarrow> copy_slice m lo (lo + length src) src (lo + i) = src ! i"
  by (simp add: copy_slice_def)

lemma copy_slice_outside:
  "a < lo \<or> lo + length src \<le> a \<Longrightarrow> copy_slice m lo (lo + length src) src a = m a"
  by (auto simp add: copy_slice_def)

lemma map_copy_slice:
  "map (copy_slice m lo (lo + length src) src) [lo..<lo + length src] = src"
  by (rule nth_equalityI) (simp_all add: copy_slice_inside)

lemma fontset_length: "length fontset = 80"
  by (simp add: fontset_def)

lemma Init_memory: "memory (Init c) = copy_slice (memory c) 0 (0 + length fontset) fontset"
  by (simp add: Init_def fontset_length)

lemma Init_fields:
  "PC (Init c) = 0x200" "V (Init c) = V c" "I (Init c) = I c" "stack (Init c) = stack c"
  "SP (Init c) = SP c" "display (Init c) = display c" "DT (Init c) = DT c" "ST (Init c) = ST c"
  "keys (Init c) = keys c"
  by (simp_all add: Init_def)

lemma LoadROM_read_failure: "LoadROM (Inl err) c = (Some err, c)"
  by (simp add: LoadROM_def)

text \<open>
  C1, as stated, fails: \<open>Init\<close> sets PC and copies the font and zeroes nothing, so a
  delay timer that holds 7 before \<open>Init\<close> and \<open>LoadROM\<close> still holds 7 after them.
\<close>

theorem Init_does_not_zero:
  "fst (LoadROM (Inr []) (Init (Chip8_zero\<lparr>DT := 7\<rparr>))) = None
   \<and> DT (snd (LoadROM (Inr []) (Init (Chip8_zero\<lparr>DT := 7\<rparr>)))) = 7
   \<and> DT (snd (LoadROM (Inr []) (Init (Chip8_zero\<lparr>DT := 7\<rparr>)))) \<noteq> 0"
  by (simp add: LoadROM_def Init_def Chip8_zero_def)

text \<open>
  C1, amended: for every machine state whose V registers, index register, stack, stack
  pointer, display, timers, key flags and memory bytes outside the font range and the
  ROM range are already zero (the state \<open>Chip8{}\<close> that \<open>main\<close> creates is one), and
  every ROM of at most 3584 bytes, \<open>Init\<close> followed by \<open>LoadROM\<close> succeeds and gives a
  state whose memory holds the font set at 0..79 and the ROM from 0x200 on, whose other
  memory bytes, registers, index register, stack, stack pointer, display, timers and
  key flags are zero, and whose PC is 0x200.
\<close>

theorem Init_then_LoadROM:
  assumes "length rom \<le> 3584"
    and "\<forall>a<4096. 80 \<le> a \<and> (a < 0x200 \<or> 0x200 + length rom \<le> a) \<longrightarrow> memory c a = 0"
    and "\<forall>i<16. V c i = 0" and "I c = 0" and "\<forall>i<16. stack c i = 0" and "SP c = 0"
    and "\<forall>x<64. \<forall>y<32. \<not> display c x y" and "DT c = 0" and "ST c = 0"
    and "\<forall>k<16. \<not> keys c k"
  shows "\<exists>c'. LoadROM (Inr rom) (Init c) = (None, c')
     \<and> map (memory c') [0..<80] = fontset
     \<and> map (memory c') [0x200..<0x200 + length rom] = rom
     \<and> (\<forall>a<4096. 80 \<le> a \<and> (a < 0x200 \<or> 0x200 + length rom \<le> a) \<longrightarrow> memory c' a = 0)
     \<and> (\<forall>i<16. V c' i = 0) \<and> I c' = 0 \<and> (\<forall>i<16. stack c' i = 0) \<and> SP c' = 0
     \<and> (\<forall>x<64. \<forall>y<32. \<not> display c' x y) \<and> DT c' = 0 \<and> ST c' = 0
     \<and> (\<forall>k<16. \<not> keys c' k) \<and> PC c' = 0x200"
proof -
  let ?c' = "(Init c)\<lparr>memory := copy_slice (memory (Init c)) 0x200 (0x200 + length rom) rom\<rparr>"
  have L: "LoadROM (Inr rom) (Init c) = (None, ?c')"
    using assms(1) by (simp add: LoadROM_def)
  have font: "map (memory ?c') [0..<80] = fontset"
  proof -
    have "map (memory ?c') [0..<80] = map (memory (Init c)) [0..<80]"
      by (simp add: copy_slice_outside)
    also have "\<dots> = fontset"
      using map_copy_slice [of "memory c" 0 fontset] by (simp add: Init_memory fontset_length)
    finally show ?thesis .
  qed
  have rom: "map (memory ?c') [0x200..<0x200 + length rom] = rom"
    by (simp add: map_copy_slice)
  have rest: "\<forall>a<4096. 80 \<le> a \<and> (a < 0x200 \<or> 0x200 + length rom \<le> a) \<longrightarrow> memory ?c' a = 0"
    using assms(2) by (auto simp add: copy_slice_def Init_def Let_def fontset_length)
  show ?thesis
    using L font rom rest assms(3-) by (simp add: Init_fields)
qed

theorem Init_then_LoadROM_witness:
  "\<exists>c'. LoadROM (Inr [0x00, 0xE0]) (Init Chip8_zero) = (None, c')
     \<and> map (memory c') [0..<80] = fontset
     \<and> map (memory c') [0x200..<0x200 + 2] = [0x00, 0xE0]
     \<and> (\<forall>a<4096. 80 \<le> a \<and> (a < 0x200 \<or> 0x200 + 2 \<le> a) \<longrightarrow> memory c' a = 0)
     \<and> (\<forall>i<16. V c' i = 0) \<and> I c' = 0 \<and> (\<forall>i<16. stack c' i = 0) \<and> SP c' = 0
     \<and> (\<forall>x<64. \<forall>y<32. \<not> display c' x y) \<and> DT c' = 0 \<and> ST c' = 0
     \<and> (\<forall>k<16. \<not> keys c' k) \<and> PC c' = 0x200"
  using Init_then_LoadROM [of "[0x00, 0xE0]" Chip8_zero]
  by (simp add: Chip8_zero_def)

text \<open>
  C9: once the file is read, \<open>LoadROM\<close> fails with \<open>RomTooLarge\<close> exactly when the
  ROM is longer than 4096 - 0x200 = 3584 bytes. When it fails the machine is unchanged;
  when it succeeds the bytes are in memory from 0x200 on, in order, every other memory
  byte is as before, and no field other than the memory has changed.
\<close>

theorem LoadROM_size_check:
  "((\<exists>n. fst (LoadROM (Inr bytes) c) = Some (RomTooLarge n)) \<longleftrightarrow> length bytes > 4096 - 0x200)
   \<and> (fst (LoadROM (Inr bytes) c) = None \<longleftrightarrow> length bytes \<le> 3584)
   \<and> (fst (LoadROM (Inr bytes) c) \<noteq> None \<longrightarrow> snd (LoadROM (Inr bytes) c) = c)
   \<and> (fst (LoadROM (Inr bytes) c) = None \<longrightarrow>
        map (memory (snd (LoadROM (Inr bytes) c))) [0x200..<0x200 + length bytes] = bytes
        \<and> (\<forall>a. a < 0x200 \<or> 0x200 + length bytes \<le> a \<longrightarrow>
               memory (snd (LoadROM (Inr bytes) c)) a = memory c a)
        \<and> snd (LoadROM (Inr bytes) c) = c\<lparr>memory := memory (snd (LoadROM (Inr bytes) c))\<rparr>)"
  by (simp add: LoadROM_def map_copy_slice copy_slice_outside)

theorem LoadROM_size_check_witness:
  "fst (LoadROM (Inr [1, 2, 3]) Chip8_zero) = None
   \<and> map (memory (snd (LoadROM (Inr [1, 2, 3]) Chip8_zero))) [0x200..<0x200 + 3] = [1, 2, 3]
   \<and> (\<exists>n. fst (LoadROM (Inr (replicate 3585 0)) Chip8_zero) = Some (RomTooLarge n))
   \<and> snd (LoadROM (Inr (replicate 3585 0)) Chip8_zero) = Chip8_zero"
  using LoadROM_size_check [of "[1, 2, 3]" Chip8_zero]
    LoadROM_size_check [of "replicate 3585 0" Chip8_zero]
  by simp

section \<open>Timers\<close>

lemma tick_DT: "unat (DT (tick c)) = unat (DT c) - 1"
proof (cases "DT c = 0")
  case True
  then show ?thesis by (simp add: tick_def Let_def)
next
  case False
  then have "0 < DT c" by (simp add: word_greater_zero_iff)
  then show ?thesis using False by (simp add: tick_def Let_def unat_minus_one)
qed

lemma ticks_DT: "unat (DT (ticks k c)) = unat (DT c) - k"
  by (induction k arbitrary: c) (simp_all add: tick_DT)

text \<open>
  C8: after \<open>k\<close> ticks of the timer loop, with nothing else writing the delay timer in
  between, DT is \<open>max (n - k) 0\<close> for its initial value \<open>n\<close>; one tick takes exactly 1
  from a positive DT and leaves a DT of 0 at 0.
\<close>

theorem delay_timer_after_k_ticks:
  "uint (DT (ticks k c)) = max (uint (DT c) - int k) 0
   \<and> (DT c > 0 \<longrightarrow> unat (DT (tick c)) + 1 = unat (DT c))
   \<and> (DT c = 0 \<longrightarrow> DT (tick c) = 0)"
proof -
  have "uint (DT (ticks k c)) = max (uint (DT c) - int k) 0"
    unfolding uint_nat ticks_DT by linarith
  moreover have "DT c > 0 \<longrightarrow> unat (DT (tick c)) + 1 = unat (DT c)"
  proof
    assume "DT c > 0"
    then have "unat (DT c) > 0" by (simp add: word_greater_zero_iff unat_gt_0)
    then show "unat (DT (tick c)) + 1 = unat (DT c)" unfolding tick_DT by linarith
  qed
  moreover have "DT c = 0 \<longrightarrow> DT (tick c) = 0"
    by (simp add: tick_def Let_def)
  ultimately show ?thesis by blast
qed

theorem delay_timer_after_k_ticks_witness:
  "uint (DT (ticks 2 (Chip8_zero\<lparr>DT := 5\<rparr>))) = 3
   \<and> uint (DT (ticks 9 (Chip8_zero\<lparr>DT := 5\<rparr>))) = 0
   \<and> unat (DT (tick (Chip8_zero\<lparr>DT := 5\<rparr>))) = 4
   \<and> DT (tick Chip8_zero) = 0"
  using delay_timer_after_k_ticks [of 2 "Chip8_zero\<lparr>DT := 5\<rparr>"]
    delay_timer_after_k_ticks [of 9 "Chip8_zero\<lparr>DT := 5\<rparr>"]
    delay_timer_after_k_ticks [of 0 Chip8_zero]
  by (simp add: Chip8_zero_def)

section \<open>Execute: register arithmetic\<close>

lemma unat_sum16: "unat ((ucast (a::u8) :: u16) + ucast (b::u8)) = unat a + unat b"
  using unat_u8_lt [of a] unat_u8_lt [of b]
  by (simp add: unat_word_ariths unat_ucast_u8_u16)

lemma low_byte_sum: "(ucast (((ucast (a::u8) :: u16) + ucast (b::u8)) AND 0xFF) :: u8) = a + b"
proof -
  have "unat (ucast (((ucast a :: u16) + ucast b) AND 0xFF) :: u8) = unat (a + b)"
    by (simp only: unat_ucast_u16_u8 unat_and_FF unat_sum16) (simp add: unat_word_ariths)
  then show ?thesis by (simp only: word_unat_eq_iff)
qed

lemma carry_sum:
  "(ucast (drop_bit 8 ((ucast (a::u8) :: u16) + ucast (b::u8)) AND 0x01) :: u8)
     = (if unat a + unat b > 255 then 1 else 0)"
proof -
  have "unat (ucast (drop_bit 8 ((ucast a :: u16) + ucast b) AND 1) :: u8)
          = (((unat a + unat b) div 256) mod 2) mod 256"
    by (simp only: unat_ucast_u16_u8 unat_and_1 unat_drop_bit_8 unat_sum16)
  also have "\<dots> = (if unat a + unat b > 255 then 1 else 0)"
    using unat_u8_lt [of a] unat_u8_lt [of b] by auto
  finally have "unat (ucast (drop_bit 8 ((ucast a :: u16) + ucast b) AND 1) :: u8)
      = unat (if unat a + unat b > 255 then 1 else 0 :: u8)" by simp
  then show ?thesis by (simp only: word_unat_eq_iff)
qed

lemma Execute_8XY4:
  assumes "opcode AND 0xF000 = 0x8000" and "opcode AND 0x000F = 0x4"
  shows "Execute now opcode c =
     Inr (c\<lparr>V := (V c)
        (unat (drop_bit 8 (opcode AND 0x0F00)) :=
            V c (unat (drop_bit 8 (opcode AND 0x0F00))) + V c (unat (drop_bit 4 (opcode AND 0x00F0))),
         0xF := (if unat (V c (unat (drop_bit 8 (opcode AND 0x0F00))))
                   + unat (V c (unat (drop_bit 4 (opcode AND 0x00F0)))) > 255 then 1 else 0))\<rparr>)"
  using assms
  by (simp add: Execute_def exec_8_def Let_def low_byte_sum carry_sum)

text \<open>
  C7: for an ADD opcode 8XY4, \<open>Execute\<close> succeeds and leaves VF at 1 when the unsigned
  sum of the old V[x] and V[y] is above 255 and at 0 otherwise; when x is not 0xF, V[x]
  becomes that sum modulo 256.
\<close>

theorem add_sets_carry_flag:
  assumes "opcode AND 0xF000 = 0x8000" and "opcode AND 0x000F = 0x4"
  shows "\<exists>c'. Execute now opcode c = Inr c'
           \<and> (V c' 0xF = 1 \<longleftrightarrow> unat (V c (opX opcode)) + unat (V c (opY opcode)) > 255)
           \<and> (V c' 0xF = 0 \<longleftrightarrow> unat (V c (opX opcode)) + unat (V c (opY opcode)) \<le> 255)
           \<and> (opX opcode \<noteq> 0xF \<longrightarrow>
                 unat (V c' (opX opcode)) = (unat (V c (opX opcode)) + unat (V c (opY opcode))) mod 256)"
  using Execute_8XY4 [OF assms(1,2), of now c]
  by (simp add: unat_word_ariths opX_def opY_def)

theorem add_sets_carry_flag_witness:
  "\<exists>c'. Execute 0 0x8124 (Chip8_zero\<lparr>V := (V Chip8_zero)(1 := 200, 2 := 100)\<rparr>) = Inr c'
       \<and> V c' 0xF = 1 \<and> unat (V c' 1) = 44"
  using add_sets_carry_flag [of "0x8124" 0 "Chip8_zero\<lparr>V := (V Chip8_zero)(1 := 200, 2 := 100)\<rparr>"]
  by (auto simp add: opX_def opY_def Chip8_zero_def)

lemma unat_diff16:
  "unat (((ucast (a::u8) :: u16) - ucast (b::u8)) AND 0xFF) = unat (a - b)"
proof -
  have L: "unat (((ucast a :: u16) - ucast b) AND 0xFF)
          = (if unat b \<le> unat a then unat a - unat b else unat a + 65536 - unat b) mod 256"
    by (simp only: unat_and_FF unat_sub_if' unat_ucast_u8_u16) simp
  have R: "unat (a - b) = (if unat b \<le> unat a then unat a - unat b else unat a + 256 - unat b)"
    by (simp add: unat_sub_if')
  show ?thesis
    unfolding L R
  proof (cases "unat b \<le> unat a")
    case True
    then show "(if unat b \<le> unat a then unat a - unat b else unat a + 65536 - unat b) mod 256
      = (if unat b \<le> unat a then unat a - unat b else unat a + 256 - unat b)"
      using unat_u8_lt [of a] by simp
  next
    case False
    then have "unat a < unat b" by simp
    then have e: "unat a + 65536 - unat b = (unat a + 256 - unat b) + 255 * 256"
      and lt: "unat a + 256 - unat b < 256"
      using unat_u8_lt [of b] by simp_all
    have "(unat a + 65536 - unat b) mod 256 = (unat a + 256 - unat b) mod 256"
      unfolding e by (rule mod_mult_self1)
    then have "(unat a + 65536 - unat b) mod 256 = unat a + 256 - unat b"
      using lt by simp
    with False show "(if unat b \<le> unat a then unat a - unat b else unat a + 65536 - unat b) mod 256
      = (if unat b \<le> unat a then unat a - unat b else unat a + 256 - unat b)"
      by simp
  qed
qed

lemma low_byte_diff: "(ucast (((ucast (a::u8) :: u16) - ucast (b::u8)) AND 0xFF) :: u8) = a - b"
proof -
  have "unat (ucast (((ucast a :: u16) - ucast b) AND 0xFF) :: u8) = unat (a - b)"
    using unat_u8_lt [of "a - b"]
    by (simp only: unat_ucast_u16_u8 unat_diff16) simp
  then show ?thesis by (simp only: word_unat_eq_iff)
qed

text \<open>
  What SUB does when x and y are different registers and neither is VF: the flag is
  the comparison of the stored difference with V[y].
\<close>

lemma Execute_8XY5:
  assumes "opcode AND 0xF000 = 0x8000" and "opcode AND 0x000F = 0x5"
    and "opX opcode \<noteq> 0xF" and "opY opcode \<noteq> 0xF" and "opX opcode \<noteq> opY opcode"
  shows "Execute now opcode c =
     Inr (c\<lparr>V := (V c)
        (opX opcode := V c (opX opcode) - V c (opY opcode),
         0xF := (if V c (opX opcode) - V c (opY opcode) > V c (opY opcode) then 1 else 0))\<rparr>)"
  using assms
  by (simp add: Execute_def exec_8_def Let_def low_byte_diff opX_def opY_def)

text \<open>
  C2 at V[1] = 5, V[2] = 3 and opcode 0x8125: V[1] > V[2] holds before the
  operation, and \<open>Execute\<close> leaves V[1] = 2 and VF = 0. The comparison that sets VF
  reads V[1] after the difference has been stored in it.
\<close>

theorem sub_flag_after_overwrite:
  "V (Chip8_zero\<lparr>V := (V Chip8_zero)(1 := 5, 2 := 3)\<rparr>) 1
     > V (Chip8_zero\<lparr>V := (V Chip8_zero)(1 := 5, 2 := 3)\<rparr>) 2
   \<and> (case Execute 0 0x8125 (Chip8_zero\<lparr>V := (V Chip8_zero)(1 := 5, 2 := 3)\<rparr>) of
         Inl p \<Rightarrow> False
       | Inr c' \<Rightarrow> V c' 1 = 2 \<and> V c' 0xF = 0)"
  by (simp add: Execute_def exec_8_def Chip8_zero_def Let_def)

section \<open>Execute: call\<close>

lemma call_below_15:
  assumes "opcode AND 0xF000 = 0x2000" and "unat (SP c) < 15"
  shows "Execute now opcode c =
     Inr (c\<lparr>stack := (stack c)(unat (SP c) := PC c), SP := SP c + 1, PC := opcode AND 0x0FFF\<rparr>)"
proof -
  from assms(2) have "uint (SP c) < 15" unfolding uint_nat by linarith
  with assms(1) show ?thesis by (simp add: Execute_def Let_def)
qed

lemma call_from_15:
  assumes "opcode AND 0xF000 = 0x2000" and "unat (SP c) \<ge> 15"
  shows "Execute now opcode c = Inl StackOverflow"
proof -
  from assms(2) have "15 \<le> uint (SP c)" unfolding uint_nat by linarith
  with assms(1) show ?thesis by (simp add: Execute_def Let_def)
qed

text \<open>
  C3 at SP = 15 and opcode 0x2300: SP is below 16 and \<open>stack[15]\<close> is free, and
  \<open>Execute\<close> panics with the stack overflow.
\<close>

theorem call_at_SP_15_overflows:
  "unat (SP (Chip8_zero\<lparr>SP := 15\<rparr>)) < 16
   \<and> Execute 0 0x2300 (Chip8_zero\<lparr>SP := 15\<rparr>) = Inl StackOverflow"
  by (simp add: Execute_def Chip8_zero_def)

section \<open>Execute: skips\<close>

text \<open>
  C5: for an opcode 5XY0, \<open>Execute\<close> adds 2 to PC exactly when V[x] = V[y], and changes
  nothing else, where y is the third nibble \<open>(opcode & 0x00F0) >> 4\<close>: the shift
  \<open>(opcode & 0x00FF) >> 4\<close> of the code reads the same register.
\<close>

theorem skip_if_equal_uses_second_nibble:
  assumes "opcode AND 0xF000 = 0x5000" and "opcode AND 0x000F = 0x0"
  shows "Execute now opcode c =
           Inr (if V c (opX opcode) = V c (opY opcode) then c\<lparr>PC := PC c + 2\<rparr> else c)
         \<and> opY opcode = unat (drop_bit 4 (opcode AND 0x00F0))
         \<and> opX opcode < 16 \<and> opY opcode < 16"
proof -
  have "Execute now opcode c =
           Inr (if V c (opX opcode) = V c (opY opcode) then c\<lparr>PC := PC c + 2\<rparr> else c)"
    using assms(1) by (simp add: Execute_def Let_def opX_def opY_def second_nibble_eq)
  moreover have "opX opcode < 16" unfolding opX_def by (rule reg_x_lt)
  moreover have "opY opcode < 16" unfolding opY_def by (rule reg_y_lt)
  ultimately show ?thesis by (simp only: opY_def simp_thms)
qed

theorem skip_if_equal_uses_second_nibble_witness:
  "Execute 0 0x5120 (Chip8_zero\<lparr>V := (V Chip8_zero)(1 := 7, 2 := 7)\<rparr>)
     = Inr (Chip8_zero\<lparr>V := (V Chip8_zero)(1 := 7, 2 := 7), PC := 2\<rparr>)
   \<and> Execute 0 0x5120 (Chip8_zero\<lparr>V := (V Chip8_zero)(1 := 7, 2 := 8)\<rparr>)
     = Inr (Chip8_zero\<lparr>V := (V Chip8_zero)(1 := 7, 2 := 8)\<rparr>)"
  using skip_if_equal_uses_second_nibble [of "0x5120" 0 "Chip8_zero\<lparr>V := (V Chip8_zero)(1 := 7, 2 := 7)\<rparr>"]
    skip_if_equal_uses_second_nibble [of "0x5120" 0 "Chip8_zero\<lparr>V := (V Chip8_zero)(1 := 7, 2 := 8)\<rparr>"]
  by (simp add: opX_def opY_def Chip8_zero_def)

section \<open>Execute: font address\<close>

lemma font_index_bound:
  "unat ((ucast ((v::u8) AND 0x0F) :: u16) * 5) = unat (v AND 0x0F) * 5 \<and> unat (v AND 0x0F) \<le> 15"
proof -
  have le: "unat (v AND 0x0F) \<le> 15"
    using word_and_le1 [of v 15, THEN word_le_nat_alt [THEN iffD1]] by simp
  have "unat (ucast (v AND 0x0F) :: u16) = unat (v AND 0x0F)"
    by (rule unat_ucast_u8_u16)
  then have "unat ((ucast (v AND 0x0F) :: u16) * 5) = unat (v AND 0x0F) * 5"
    using le by (simp add: unat_word_ariths)
  then show ?thesis using le by simp
qed

text \<open>
  C10: for an opcode FX29, \<open>Execute\<close> succeeds and sets I to \<open>(V[x] & 0x0F) * 5\<close>, which
  is at most 75 and so below 80, whatever V[x] holds.
\<close>

theorem font_address_in_glyph_region:
  assumes "opcode AND 0xF000 = 0xF000" and "opcode AND 0x00FF = 0x29"
  shows "\<exists>c'. Execute now opcode c = Inr c'
      \<and> I c' = ucast (V c (opX opcode) AND 0x0F) * 5
      \<and> unat (I c') = unat (V c (opX opcode) AND 0x0F) * 5
      \<and> unat (I c') \<le> 75 \<and> unat (I c') < 80"
proof -
  have "Execute now opcode c = Inr (c\<lparr>I := ucast (V c (opX opcode) AND 0x0F) * 5\<rparr>)"
    using assms by (simp add: Execute_def exec_F_def Let_def opX_def)
  moreover have "unat ((ucast (V c (opX opcode) AND 0x0F) :: u16) * 5) \<le> 75"
    using font_index_bound [of "V c (opX opcode)"] by simp
  ultimately show ?thesis
    using font_index_bound [of "V c (opX opcode)"] by simp
qed

theorem font_address_in_glyph_region_witness:
  "\<exists>c'. Execute 0 0xF329 (Chip8_zero\<lparr>V := (V Chip8_zero)(3 := 0xAB)\<rparr>) = Inr c'
      \<and> I c' = 55 \<and> unat (I c') < 80"
  using font_address_in_glyph_region [of "0xF329" 0 "Chip8_zero\<lparr>V := (V Chip8_zero)(3 := 0xAB)\<rparr>"]
  by (auto simp add: opX_def Chip8_zero_def)

section \<open>Execute: opcodes outside the documented forms\<close>

text \<open>
  Outside the groups 0x5000 and 0x9000, an opcode that is not of a documented form
  changes nothing.
\<close>

lemma undocumented_no_effect:
  assumes "\<not> documented opcode"
    and "opcode AND 0xF000 \<noteq> 0x5000" and "opcode AND 0xF000 \<noteq> 0x9000"
  shows "Execute now opcode c = Inr c"
  using assms
  by (simp add: documented_def Execute_def exec_0_def exec_8_def exec_F_def Let_def)

text \<open>A cycle on such an opcode moves PC by the 2 of \<open>Fetch\<close> and changes nothing else.\<close>

lemma Fetch_advances:
  assumes "Fetch c = Inr (opcode, c1)"
  shows "c1 = c\<lparr>PC := PC c + 2\<rparr>"
  using assms by (auto simp add: Fetch_def Let_def split: if_splits)

lemma Cycle_undocumented:
  assumes "Fetch c = Inr (opcode, c1)" and "\<not> documented opcode"
    and "opcode AND 0xF000 \<noteq> 0x5000" and "opcode AND 0xF000 \<noteq> 0x9000"
  shows "Cycle now c = Inr (c\<lparr>PC := PC c + 2\<rparr>)"
  using Fetch_advances [OF assms(1)] assms(1) undocumented_no_effect [OF assms(2-4)]
  by (simp add: Cycle_def)

text \<open>
  C4 at opcode 0x5001 on the zero machine: 0x5001 is not of the form 5XY0, and
  \<open>Execute\<close> runs it as a skip and moves PC from 0 to 2. The cases 0x5000 and 0x9000
  are selected by the first nibble alone; the last nibble is not looked at.
\<close>

theorem undocumented_5XY1_skips:
  "\<not> documented 0x5001 \<and> Execute 0 0x5001 Chip8_zero = Inr (Chip8_zero\<lparr>PC := 2\<rparr>)
   \<and> PC (Chip8_zero\<lparr>PC := 2\<rparr>) \<noteq> PC Chip8_zero"
  by (simp add: documented_def Execute_def Chip8_zero_def)

section \<open>Execute: draw\<close>

subsection \<open>Flipping pixels\<close>





subsection \<open>What the loops do\<close>










subsection \<open>Drawing twice\<close>



text \<open>
  A draw whose x register is VF itself: with V[F] = 2 the first draw of 0xDF01 plots at
  column 2 and clears VF, so the second plots at column 0, and both pixels stay set.
\<close>

lemma upt8: "[0..<8] = [0, 1, 2, 3, 4, 5, 6, 7]"
  by (simp add: upt_rec)

lemma draw_through_VF_moves:
  "(case Execute 0 0xDF01
           (Chip8_zero\<lparr>memory := (memory Chip8_zero)(0 := 0x80), V := (V Chip8_zero)(0xF := 2)\<rparr>) of
      Inl p \<Rightarrow> False
    | Inr c1 \<Rightarrow>
        (case Execute 0 0xDF01 c1 of
           Inl p \<Rightarrow> False
         | Inr c2 \<Rightarrow> V c1 0xF = 0 \<and> display c2 2 0 \<and> display c2 0 0))"
  by (simp add: Execute_def exec_D_def Chip8_zero_def upt8 draw_pixel_def Let_def)

end
